theory Spec2Isabelle
  imports Complex_Main "HOL-Library.Multiset"
begin

section \<open>Data model (fonts.go, ocr.go)\<close>

text \<open>
  Go's \<^verbatim>\<open>int\<close> is 64 bits wide.  Every integer of this program is a pixel coordinate,
  an image dimension or a pixel count of an in-memory image, so sums and differences
  of two of them stay far inside the 64-bit range; they are modelled as \<^typ>\<open>int\<close>.
  The match quality \<^verbatim>\<open>g\<close> is a \<^verbatim>\<open>float64\<close> that the code only subtracts and
  compares with zero; for finite floats \<^verbatim>\<open>a - b != 0\<close> holds exactly when
  \<^verbatim>\<open>a != b\<close> and \<^verbatim>\<open>a - b > 0\<close> exactly when \<^verbatim>\<open>a > b\<close>, so it is modelled
  as \<^typ>\<open>real\<close>.  Go strings are byte sequences, as \<^typ>\<open>string\<close> is.
\<close>

text \<open>
  Modelled from the spec: the type \<^verbatim>\<open>imageBinary\<close> is declared in another file of
  the package.  The code reads its fields \<^verbatim>\<open>width\<close>, \<^verbatim>\<open>height\<close>
  and \<^verbatim>\<open>size\<close>; the spec (section 3) describes it as
  \<^verbatim>\<open>{width, height, size}\<close> plus opaque pixel data.
\<close>

record imageBinary =
  ib_width :: int
  ib_height :: int
  ib_size :: int

text \<open>\<^verbatim>\<open>type FontSymbol struct { symbol string; image *imageBinary; width, height int }\<close>\<close>

record FontSymbol =
  symbol :: string
  image_bin :: imageBinary
  width :: int
  height :: int

text \<open>
  \<^verbatim>\<open>type fontSymbolLookup struct { fs *FontSymbol; x, y int; g float64; size int }\<close>.
  The fields \<^verbatim>\<open>x\<close>, \<^verbatim>\<open>y\<close>, \<^verbatim>\<open>g\<close> and \<^verbatim>\<open>size\<close> carry the prefix \<open>lk_\<close>.
\<close>

record fontSymbolLookup =
  fs :: FontSymbol
  lk_x :: int
  lk_y :: int
  lk_g :: real
  lk_size :: int

definition newFontSymbolLookup :: "FontSymbol \<Rightarrow> int \<Rightarrow> int \<Rightarrow> real \<Rightarrow> fontSymbolLookup" where
  "newFontSymbolLookup f x y g =
     \<lparr>fs = f, lk_x = x, lk_y = y, lk_g = g, lk_size = ib_size (image_bin f)\<rparr>"

subsection \<open>Rectangles of Go's \<^verbatim>\<open>image\<close> package\<close>

text \<open>
  \<^verbatim>\<open>image.Rect\<close> swaps the coordinates where needed so that the minimum is not above
  the maximum; \<^verbatim>\<open>Intersect\<close> clips and returns the zero rectangle when the result is
  empty.
\<close>

record Rectangle =
  MinX :: int
  MinY :: int
  MaxX :: int
  MaxY :: int

definition ZR :: Rectangle where
  "ZR = \<lparr>MinX = 0, MinY = 0, MaxX = 0, MaxY = 0\<rparr>"

definition Rect :: "int \<Rightarrow> int \<Rightarrow> int \<Rightarrow> int \<Rightarrow> Rectangle" where
  "Rect x0 y0 x1 y1 =
     \<lparr>MinX = (if x0 > x1 then x1 else x0), MinY = (if y0 > y1 then y1 else y0),
      MaxX = (if x0 > x1 then x0 else x1), MaxY = (if y0 > y1 then y0 else y1)\<rparr>"

definition Empty :: "Rectangle \<Rightarrow> bool" where
  "Empty r \<longleftrightarrow> MinX r \<ge> MaxX r \<or> MinY r \<ge> MaxY r"

definition Intersect :: "Rectangle \<Rightarrow> Rectangle \<Rightarrow> Rectangle" where
  "Intersect r s =
     (let r1 = (if MinX r < MinX s then r\<lparr>MinX := MinX s\<rparr> else r);
          r2 = (if MinY r1 < MinY s then r1\<lparr>MinY := MinY s\<rparr> else r1);
          r3 = (if MaxX r2 > MaxX s then r2\<lparr>MaxX := MaxX s\<rparr> else r2);
          r4 = (if MaxY r3 > MaxY s then r3\<lparr>MaxY := MaxY s\<rparr> else r3)
      in if Empty r4 then ZR else r4)"

subsection \<open>Methods of \<^verbatim>\<open>fontSymbolLookup\<close>\<close>

definition cross :: "fontSymbolLookup \<Rightarrow> fontSymbolLookup \<Rightarrow> bool" where
  "cross l f =
     (let r = Rect (lk_x l) (lk_y l) (lk_x l + width (fs l)) (lk_y l + height (fs l));
          r2 = Rect (lk_x f) (lk_y f) (lk_x f + width (fs f)) (lk_y f + height (fs f))
      in Intersect r r2 \<noteq> ZR)"

definition yCross :: "fontSymbolLookup \<Rightarrow> fontSymbolLookup \<Rightarrow> bool" where
  "yCross l f =
     (let ly2 = lk_y l + height (fs l);
          fy2 = lk_y f + height (fs f)
      in (lk_y f \<ge> lk_y l \<and> lk_y f \<le> ly2) \<or> (fy2 \<ge> lk_y l \<and> fy2 \<le> ly2))"

text \<open>
  Modelled from the spec: the helper \<^verbatim>\<open>abs\<close> on \<^verbatim>\<open>int\<close> is defined in another file
  of the package; the spec writes \<^verbatim>\<open>|A.size - B.size|\<close> for the
  value it computes, the absolute value.
\<close>

definition abs_int :: "int \<Rightarrow> int" where
  "abs_int v = (if v < 0 then - v else v)"

definition biggerThan :: "fontSymbolLookup \<Rightarrow> fontSymbolLookup \<Rightarrow> int \<Rightarrow> bool" where
  "biggerThan l other maxSize2 =
     (if abs_int (abs_int (lk_size l) - abs_int (lk_size other)) \<ge> maxSize2
      then lk_size other < lk_size l
      else let diff = lk_g l - lk_g other
           in if diff \<noteq> 0 then diff > 0
              else lk_size other < lk_size l)"

definition comesAfter :: "fontSymbolLookup \<Rightarrow> fontSymbolLookup \<Rightarrow> bool" where
  "comesAfter l f =
     (let r0 = (if \<not> yCross l f then lk_y l - lk_y f else 0);
          r1 = (if r0 = 0 then lk_x l - lk_x f else r0);
          r2 = (if r1 = 0 then lk_y l - lk_y f else r1)
      in r2 < 0)"

subsection \<open>Go's \<^verbatim>\<open>sort.Slice\<close>\<close>

text \<open>
  \<^verbatim>\<open>sort.Slice(x, less)\<close> belongs to Go's standard library; \<open>filterAndArrange\<close> below
  takes it as the parameter \<open>sortSlice\<close>.  It only ever swaps elements, and it is not
  stable.  For a slice of at most 12 elements the library runs
  \<^verbatim>\<open>
  func insertionSort_func(data lessSwap, a, b int) {
      for i := a + 1; i < b; i++ {
          for j := i; j > a && data.Less(j, j-1); j-- {
              data.Swap(j, j-1)
          }
      }
  }
  \<close>
  which is modelled here and used for every concrete run.  \<open>sift lt v pre\<close> is the
  inner loop: \<open>v\<close> is the element that started at index \<open>i\<close> and \<open>pre\<close> holds
  \<^verbatim>\<open>data[a..i)\<close> with the nearest left neighbour first; \<open>v\<close> moves left as long as
  it compares as less than its left neighbour.
\<close>

fun sift :: "('a \<Rightarrow> 'a \<Rightarrow> bool) \<Rightarrow> 'a \<Rightarrow> 'a list \<Rightarrow> 'a list" where
  "sift lt v [] = [v]"
| "sift lt v (u # us) = (if lt v u then u # sift lt v us else v # u # us)"

fun insertionSort_loop :: "('a \<Rightarrow> 'a \<Rightarrow> bool) \<Rightarrow> 'a list \<Rightarrow> 'a list \<Rightarrow> 'a list" where
  "insertionSort_loop lt pre [] = rev pre"
| "insertionSort_loop lt pre (v # rest) = insertionSort_loop lt (sift lt v pre) rest"

definition insertionSort_func :: "('a \<Rightarrow> 'a \<Rightarrow> bool) \<Rightarrow> 'a list \<Rightarrow> 'a list" where
  "insertionSort_func lt data = insertionSort_loop lt [] data"

text \<open>
  What \<^verbatim>\<open>sort.Slice\<close> promises for any length: the result is a rearrangement of the
  input, and when the comparison is a strict total order on the elements no element is less
  than an element before it.
\<close>

definition strict_total_on :: "'a set \<Rightarrow> ('a \<Rightarrow> 'a \<Rightarrow> bool) \<Rightarrow> bool" where
  "strict_total_on S lt \<longleftrightarrow>
     (\<forall>a\<in>S. \<not> lt a a) \<and>
     (\<forall>a\<in>S. \<forall>b\<in>S. \<forall>c\<in>S. lt a b \<longrightarrow> lt b c \<longrightarrow> lt a c) \<and>
     (\<forall>a\<in>S. \<forall>b\<in>S. a \<noteq> b \<longrightarrow> lt a b \<or> lt b a)"

definition sort_contract :: "(('a \<Rightarrow> 'a \<Rightarrow> bool) \<Rightarrow> 'a list \<Rightarrow> 'a list) \<Rightarrow> bool" where
  "sort_contract sortSlice \<longleftrightarrow>
     (\<forall>lt xs. mset (sortSlice lt xs) = mset xs \<and>
        (strict_total_on (set xs) lt \<longrightarrow>
           sorted_wrt (\<lambda>a b. \<not> lt b a) (sortSlice lt xs)))"

subsection \<open>Overlap resolution and arrangement (ocr.go)\<close>

text \<open>
  \<^verbatim>\<open>biggerFirst\<close>: the loop computes the largest \<^verbatim>\<open>fs.image.size\<close> of the list,
  starting from 0, so \<open>maxSize\<close> is never negative and Go's truncating \<^verbatim>\<open>/ 2\<close> is
  \<open>div 2\<close>.
\<close>

definition maxSize :: "fontSymbolLookup list \<Rightarrow> int" where
  "maxSize list = foldl (\<lambda>m i. max m (ib_size (image_bin (fs i)))) 0 list"

definition biggerFirst :: "fontSymbolLookup list \<Rightarrow> fontSymbolLookup \<Rightarrow> fontSymbolLookup \<Rightarrow> bool" where
  "biggerFirst list = (let maxSize2 = maxSize list div 2 in (\<lambda>a b. biggerThan a b maxSize2))"

text \<open>\<^verbatim>\<open>deleteSymbol\<close> is only called with an index inside the slice.\<close>

definition deleteSymbol :: "'a list \<Rightarrow> nat \<Rightarrow> 'a list" where
  "deleteSymbol all i = take i all @ drop (Suc i) all"

text \<open>
  The inner loop of the suppression,
  \<^verbatim>\<open>for j := k + 1; j < len(all); j++ { if kk.cross(all[j]) { all = deleteSymbol(all, j); j-- } }\<close>:
  after a deletion the same index is looked at again.
\<close>

function removeCrossing :: "fontSymbolLookup \<Rightarrow> fontSymbolLookup list \<Rightarrow> nat \<Rightarrow> fontSymbolLookup list" where
  "removeCrossing kk all j =
     (if j < length all
      then (if cross kk (all ! j) then removeCrossing kk (deleteSymbol all j) j
            else removeCrossing kk all (Suc j))
      else all)"
  by pat_completeness auto
termination
  by (relation "measure (\<lambda>(kk, all, j). length all - j)") (auto simp: deleteSymbol_def)

declare removeCrossing.simps [simp del]

text \<open>
  The outer loop \<^verbatim>\<open>for k, kk := range all\<close>.  Go evaluates the range expression once:
  \<open>k\<close> runs up to the length \<open>n\<close> the slice had before the loop.  The deletions work
  in place on the shared backing array and set the freed slots to \<^verbatim>\<open>nil\<close>, so
  for \<open>k\<close> inside the current slice \<^verbatim>\<open>kk\<close> is its \<open>k\<close>-th element, and for \<open>k\<close>
  beyond it the inner loop does not run (\<open>k + 1 < len(all)\<close> fails at once).
\<close>

function suppress :: "fontSymbolLookup list \<Rightarrow> nat \<Rightarrow> nat \<Rightarrow> fontSymbolLookup list" where
  "suppress all k n =
     (if k < n
      then (if k < length all then suppress (removeCrossing (all ! k) all (Suc k)) (Suc k) n
            else suppress all (Suc k) n)
      else all)"
  by pat_completeness auto
termination
  by (relation "measure (\<lambda>(all, k, n). n - k)") auto

declare suppress.simps [simp del]

text \<open>
  The synthesis loop \<^verbatim>\<open>for i, s := range all\<close> with its variables \<^verbatim>\<open>str\<close>,
  \<^verbatim>\<open>x\<close> and \<^verbatim>\<open>previousAdvance\<close>.  The method \<^verbatim>\<open>Advance\<close> of \<^verbatim>\<open>FontSymbol\<close> is
  defined in another file of the package and is a parameter.
\<close>

definition newline :: string where
  "newline = [CHR 0x0A]"

fun synthesize ::
  "(FontSymbol \<Rightarrow> int) \<Rightarrow> string \<Rightarrow> int \<Rightarrow> int \<Rightarrow> nat \<Rightarrow> fontSymbolLookup list \<Rightarrow> string" where
  "synthesize Advance str x previousAdvance i [] = str"
| "synthesize Advance str x previousAdvance i (s # rest) =
     (let maxCurrentPreviousAdvance = max previousAdvance (Advance (fs s));
          str1 = (if lk_x s - x \<ge> maxCurrentPreviousAdvance \<and> i \<noteq> 0 then str @ '' '' else str);
          str2 = (if lk_x s < x then str1 @ newline else str1)
      in synthesize Advance (str2 @ symbol (fs s)) (lk_x s + Advance (fs s)) (Advance (fs s))
           (Suc i) rest)"

text \<open>
  \<^verbatim>\<open>filterAndArrange\<close>, in the three parts of its body.  The first part (the comment
  \<^verbatim>\<open>big images eat small ones\<close>) sorts by \<open>biggerFirst\<close> and runs the suppression.
\<close>

definition resolveOverlaps ::
  "((fontSymbolLookup \<Rightarrow> fontSymbolLookup \<Rightarrow> bool) \<Rightarrow> fontSymbolLookup list \<Rightarrow> fontSymbolLookup list)
   \<Rightarrow> fontSymbolLookup list \<Rightarrow> fontSymbolLookup list" where
  "resolveOverlaps sortSlice all =
     (let all1 = sortSlice (biggerFirst all) all
      in suppress all1 0 (length all1))"

text \<open>
  The last part starts with \<^verbatim>\<open>x := all[0].x\<close>, which panics on an empty slice (index
  out of range): the result \<open>None\<close>.
\<close>

definition synthesis :: "(FontSymbol \<Rightarrow> int) \<Rightarrow> fontSymbolLookup list \<Rightarrow> string option" where
  "synthesis Advance all =
     (case all of
        [] \<Rightarrow> None
      | first # _ \<Rightarrow> Some (synthesize Advance [] (lk_x first) 0 0 all))"

definition filterAndArrange ::
  "((fontSymbolLookup \<Rightarrow> fontSymbolLookup \<Rightarrow> bool) \<Rightarrow> fontSymbolLookup list \<Rightarrow> fontSymbolLookup list)
   \<Rightarrow> (FontSymbol \<Rightarrow> int) \<Rightarrow> fontSymbolLookup list \<Rightarrow> string option" where
  "filterAndArrange sortSlice Advance all =
     (let all2 = resolveOverlaps sortSlice all;
          all3 = sortSlice comesAfter all2
      in synthesis Advance all3)"

text \<open>A template with the given label, width, height and ink size, for the examples.\<close>

definition glyph :: "string \<Rightarrow> int \<Rightarrow> int \<Rightarrow> int \<Rightarrow> FontSymbol" where
  "glyph s w h n =
     \<lparr>symbol = s, image_bin = \<lparr>ib_width = w, ib_height = h, ib_size = n\<rparr>, width = w, height = h\<rparr>"

text \<open>
  The suppression as a recursion on the list, used to reason about \<open>suppress\<close> (they
  are proved equal below): the head is kept and deletes every later candidate that
  crosses it.
\<close>

fun greedy :: "fontSymbolLookup list \<Rightarrow> fontSymbolLookup list" where
  "greedy [] = []"
| "greedy (k # rest) = k # greedy (filter (\<lambda>j. \<not> cross k j) rest)"

subsection \<open>The OCR object (ocr.go)\<close>

text \<open>
  \<^verbatim>\<open>type OCR struct { fontFamilies map[string][]*FontSymbol; threshold float64;
  allSymbols []*FontSymbol; numThreads int }\<close>
\<close>

record OCR =
  fontFamilies :: "string \<rightharpoonup> FontSymbol list"
  threshold :: real
  allSymbols :: "FontSymbol list"
  numThreads :: int

text \<open>The variadic \<^verbatim>\<open>numThreads ...int\<close> is the list of the optional arguments.\<close>

definition NewOCR :: "real \<Rightarrow> int list \<Rightarrow> OCR" where
  "NewOCR thr numThreadsArg =
     (let ocr = \<lparr>fontFamilies = Map.empty, threshold = thr, allSymbols = [], numThreads = 1\<rparr>
      in if length numThreadsArg > 0 then ocr\<lparr>numThreads := hd numThreadsArg\<rparr> else ocr)"

definition AddSymbols :: "OCR \<Rightarrow> FontSymbol list \<Rightarrow> OCR" where
  "AddSymbols ocr symbols = ocr\<lparr>allSymbols := allSymbols ocr @ symbols\<rparr>"

text \<open>Reading a key that the map does not hold gives the nil slice.\<close>

definition AddFontFamily :: "OCR \<Rightarrow> string \<Rightarrow> FontSymbol list \<Rightarrow> OCR" where
  "AddFontFamily ocr name symbols =
     (let family = (case fontFamilies ocr name of None \<Rightarrow> [] | Some f \<Rightarrow> f);
          family1 = family @ symbols;
          ocr1 = ocr\<lparr>fontFamilies := (fontFamilies ocr)(name \<mapsto> family1)\<rparr>
      in AddSymbols ocr1 symbols)"

text \<open>
  \<^verbatim>\<open>recognize\<close>.  The scanner \<^verbatim>\<open>findAllInParallel\<close> is defined in another file of
  the package and is a parameter; it returns Go's pair of the candidates and the
  error (\<open>None\<close> is \<^verbatim>\<open>nil\<close>).  The result is \<open>None\<close> when \<open>filterAndArrange\<close>
  panics and Go's pair \<^verbatim>\<open>(string, error)\<close> otherwise.
\<close>

definition recognize ::
  "(int \<Rightarrow> FontSymbol list \<Rightarrow> 'bi \<Rightarrow> real \<Rightarrow> Rectangle \<Rightarrow> fontSymbolLookup list \<times> 'e option)
   \<Rightarrow> ((fontSymbolLookup \<Rightarrow> fontSymbolLookup \<Rightarrow> bool) \<Rightarrow> fontSymbolLookup list \<Rightarrow> fontSymbolLookup list)
   \<Rightarrow> (FontSymbol \<Rightarrow> int) \<Rightarrow> OCR \<Rightarrow> 'bi \<Rightarrow> Rectangle \<Rightarrow> (string \<times> 'e option) option" where
  "recognize findAllInParallel sortSlice Advance ocr bi rect =
     (case findAllInParallel (numThreads ocr) (allSymbols ocr) bi (threshold ocr) rect of
        (found, Some err) \<Rightarrow> Some ('''', Some err)
      | (found, None) \<Rightarrow>
          if length found = 0 then Some ('''', None)
          else (case filterAndArrange sortSlice Advance found of
                  None \<Rightarrow> None
                | Some text \<Rightarrow> Some (text, None)))"

subsection \<open>Loading a font directory (fonts.go, ocr.go)\<close>

text \<open>
  The errors a load can return: the ones of the file system and of the image decoder
  (\<open>ErrNotExist\<close> is the one \<^verbatim>\<open>os.IsNotExist\<close> recognises, \<open>ErrOther\<close> any other),
  and \<^verbatim>\<open>url.EscapeError\<close>.
\<close>

datatype error = ErrNotExist | ErrOther string | EscapeError string

definition IsNotExist :: "error option \<Rightarrow> bool" where
  "IsNotExist err = (err = Some ErrNotExist)"

record FileInfo =
  Name :: string
  IsDir :: bool

text \<open>
  The file system and the image decoder, as the code calls them: \<^verbatim>\<open>os.Stat\<close> (only
  its error is used), \<^verbatim>\<open>ioutil.ReadDir\<close>, \<^verbatim>\<open>os.Open\<close>, \<^verbatim>\<open>image.Decode\<close>,
  \<^verbatim>\<open>filepath.Base\<close>, and the conversion \<^verbatim>\<open>newImageBinary(ensureGrayScale(img))\<close>
  that is defined in another file of the package.
\<close>

record ('f, 'i) world =
  Stat :: "string \<Rightarrow> error option"
  ReadDir :: "string \<Rightarrow> error + FileInfo list"
  Open :: "string \<Rightarrow> error + 'f"
  Decode :: "'f \<Rightarrow> error + 'i"
  Base :: "string \<Rightarrow> string"
  toBinary :: "'i \<Rightarrow> imageBinary"

definition NewFontSymbol :: "('f, 'i) world \<Rightarrow> string \<Rightarrow> 'i \<Rightarrow> FontSymbol" where
  "NewFontSymbol w fsym img =
     (let imgBin = toBinary w img
      in \<lparr>symbol = fsym, image_bin = imgBin, width = ib_width imgBin, height = ib_height imgBin\<rparr>)"

subsubsection \<open>String functions of Go's library\<close>

definition HasPrefix :: "string \<Rightarrow> string \<Rightarrow> bool" where
  "HasPrefix s pre \<longleftrightarrow> length s \<ge> length pre \<and> take (length pre) s = pre"

definition HasSuffix :: "string \<Rightarrow> string \<Rightarrow> bool" where
  "HasSuffix s suffix \<longleftrightarrow>
     length s \<ge> length suffix \<and> drop (length s - length suffix) s = suffix"

definition TrimSuffix :: "string \<Rightarrow> string \<Rightarrow> string" where
  "TrimSuffix s suffix =
     (if HasSuffix s suffix then take (length s - length suffix) s else s)"

text \<open>
  \<^verbatim>\<open>strings.Replace(s, old, new, -1)\<close> for a non-empty \<open>old\<close>: every occurrence,
  found from the left and not overlapping, is replaced.
\<close>

function Replace :: "string \<Rightarrow> string \<Rightarrow> string \<Rightarrow> string" where
  "Replace s old new =
     (if s = [] \<or> old = [] then s
      else if HasPrefix s old then new @ Replace (drop (length old) s) old new
      else hd s # Replace (tl s) old new)"
  by pat_completeness auto
termination
  by (relation "measure (\<lambda>(s, old, new). length s)") auto

declare Replace.simps [simp del]

text \<open>
  \<^verbatim>\<open>url.QueryUnescape\<close>: a first pass checks that every \<^verbatim>\<open>%\<close> is followed by two
  hexadecimal digits (otherwise the error holds the offending bytes, three at most);
  the second pass decodes each \<^verbatim>\<open>%AB\<close> to the byte \<open>0xAB\<close> and each \<^verbatim>\<open>+\<close> to a
  space.
\<close>

definition ishex :: "char \<Rightarrow> bool" where
  "ishex c = (let n = (of_char c :: nat)
              in (48 \<le> n \<and> n \<le> 57) \<or> (97 \<le> n \<and> n \<le> 102) \<or> (65 \<le> n \<and> n \<le> 70))"

definition unhex :: "char \<Rightarrow> nat" where
  "unhex c = (let n = (of_char c :: nat)
              in if 48 \<le> n \<and> n \<le> 57 then n - 48
                 else if 97 \<le> n \<and> n \<le> 102 then n - 97 + 10
                 else if 65 \<le> n \<and> n \<le> 70 then n - 65 + 10
                 else 0)"

fun checkEscapes :: "string \<Rightarrow> error option" where
  "checkEscapes [] = None"
| "checkEscapes (c # rest) =
     (if c = CHR ''%'' then
        (case rest of
           h1 # h2 # rest2 \<Rightarrow>
             if ishex h1 \<and> ishex h2 then checkEscapes rest2
             else Some (EscapeError (take 3 (c # rest)))
         | _ \<Rightarrow> Some (EscapeError (take 3 (c # rest))))
      else checkEscapes rest)"

fun decodeEscapes :: "string \<Rightarrow> string" where
  "decodeEscapes [] = []"
| "decodeEscapes (c # rest) =
     (if c = CHR ''%'' then
        (case rest of
           h1 # h2 # rest2 \<Rightarrow> char_of (unhex h1 * 16 + unhex h2) # decodeEscapes rest2
         | _ \<Rightarrow> [])
      else if c = CHR ''+'' then CHR '' '' # decodeEscapes rest
      else c # decodeEscapes rest)"

definition QueryUnescape :: "string \<Rightarrow> error + string" where
  "QueryUnescape s = (case checkEscapes s of Some e \<Rightarrow> Inl e | None \<Rightarrow> Inr (decodeEscapes s))"

text \<open>The three bytes of U+200B ZERO WIDTH SPACE in UTF-8.\<close>

definition zeroWidthSpace :: string where
  "zeroWidthSpace = [CHR 0xE2, CHR 0x80, CHR 0x8B]"

subsubsection \<open>\<^verbatim>\<open>loadSymbol\<close>, \<^verbatim>\<open>loadFont\<close> and \<^verbatim>\<open>LoadFont\<close>\<close>

definition loadSymbol :: "('f, 'i) world \<Rightarrow> string \<Rightarrow> string \<Rightarrow> error + FontSymbol" where
  "loadSymbol w path fileName =
     (case Open w (path @ ''/'' @ fileName) of
        Inl err \<Rightarrow> Inl err
      | Inr imageFile \<Rightarrow>
          (case Decode w imageFile of
             Inl err \<Rightarrow> Inl err
           | Inr img \<Rightarrow>
               (let nameWithoutExtension = TrimSuffix fileName ''.png''
                in case QueryUnescape nameWithoutExtension of
                     Inl err \<Rightarrow> Inl err
                   | Inr symbolName \<Rightarrow>
                       Inr (NewFontSymbol w (Replace symbolName zeroWidthSpace []) img))))"

text \<open>The loop \<^verbatim>\<open>for _, f := range files\<close> of \<^verbatim>\<open>loadFont\<close>, with its slice \<^verbatim>\<open>fonts\<close>.\<close>

fun loadFont_loop ::
  "('f, 'i) world \<Rightarrow> string \<Rightarrow> FontSymbol list \<Rightarrow> FileInfo list \<Rightarrow> error + FontSymbol list" where
  "loadFont_loop w path fonts [] = Inr fonts"
| "loadFont_loop w path fonts (f # files) =
     (if IsDir f \<or> HasPrefix (Name f) ''.'' then loadFont_loop w path fonts files
      else case loadSymbol w path (Name f) of
             Inl err \<Rightarrow> Inl err
           | Inr fsym \<Rightarrow> loadFont_loop w path (fonts @ [fsym]) files)"

definition loadFont :: "('f, 'i) world \<Rightarrow> string \<Rightarrow> error + FontSymbol list" where
  "loadFont w path =
     (case ReadDir w path of
        Inl err \<Rightarrow> Inl err
      | Inr files \<Rightarrow> loadFont_loop w path [] files)"

text \<open>
  \<^verbatim>\<open>LoadFont\<close> returns its error (\<open>None\<close> is \<^verbatim>\<open>nil\<close>) and the state of the receiver
  after the call.
\<close>

definition LoadFont :: "('f, 'i) world \<Rightarrow> OCR \<Rightarrow> string \<Rightarrow> error option \<times> OCR" where
  "LoadFont w ocr fontPath =
     (if IsNotExist (Stat w fontPath) then (Stat w fontPath, ocr)
      else case loadFont w fontPath of
             Inl err \<Rightarrow> (Some err, ocr)
           | Inr symbols \<Rightarrow>
               (let familyName = Base w fontPath
                in (None, AddFontFamily ocr familyName symbols)))"

section \<open>The suppression loops\<close>

lemma length_removeCrossing_le: "length (removeCrossing kk all j) \<le> length all"
  by (induction kk all j rule: removeCrossing.induct)
     (subst removeCrossing.simps, auto simp: deleteSymbol_def)

text \<open>The inner loop keeps the slice up to \<open>j\<close> and filters the rest.\<close>

lemma removeCrossing_eq:
  "j \<le> length all \<Longrightarrow>
   removeCrossing kk all j = take j all @ filter (\<lambda>f. \<not> cross kk f) (drop j all)"
proof (induction kk all j rule: removeCrossing.induct)
  case (1 kk all j)
  show ?case
  proof (cases "j < length all")
    case False
    with 1(3) show ?thesis by (subst removeCrossing.simps) simp
  next
    case True
    then have d: "drop j all = all ! j # drop (Suc j) all"
      by (simp add: Cons_nth_drop_Suc)
    show ?thesis
    proof (cases "cross kk (all ! j)")
      case c: True
      have "removeCrossing kk all j = removeCrossing kk (deleteSymbol all j) j"
        using True c by (subst removeCrossing.simps) simp
      also have "\<dots> = take j (deleteSymbol all j) @
          filter (\<lambda>f. \<not> cross kk f) (drop j (deleteSymbol all j))"
        using 1(1)[OF True c] True by (simp add: deleteSymbol_def)
      finally show ?thesis using True c d by (simp add: deleteSymbol_def)
    next
      case c: False
      have "removeCrossing kk all j = removeCrossing kk all (Suc j)"
        using True c by (subst removeCrossing.simps) simp
      also have "\<dots> = take (Suc j) all @ filter (\<lambda>f. \<not> cross kk f) (drop (Suc j) all)"
        using 1(2)[OF True c] True by simp
      finally show ?thesis using True c d by (simp add: take_Suc_conv_app_nth)
    qed
  qed
qed

lemma suppress_past_end: "length all \<le> m \<Longrightarrow> suppress all m n = all"
proof (induction "n - m" arbitrary: m)
  case 0
  then show ?case by (subst suppress.simps) simp
next
  case (Suc d)
  then have "suppress all m n = suppress all (Suc m) n"
    by (subst suppress.simps) simp
  also have "\<dots> = all" using Suc by simp
  finally show ?case .
qed

text \<open>The two loops together are the recursion \<open>greedy\<close>.\<close>

lemma suppress_eq:
  "k \<le> length all \<Longrightarrow> length all \<le> n \<Longrightarrow>
   suppress all k n = take k all @ greedy (drop k all)"
proof (induction all k n rule: suppress.induct)
  case (1 all k n)
  show ?case
  proof (cases "k < length all")
    case True
    then have kn: "k < n" using 1(4) by simp
    have d: "drop k all = all ! k # drop (Suc k) all"
      using True by (simp add: Cons_nth_drop_Suc)
    let ?all' = "removeCrossing (all ! k) all (Suc k)"
    have e: "?all' = take (Suc k) all @ filter (\<lambda>f. \<not> cross (all ! k) f) (drop (Suc k) all)"
      using True by (simp add: removeCrossing_eq)
    have "suppress all k n = suppress ?all' (Suc k) n"
      using True kn by (subst suppress.simps) simp
    also have "\<dots> = take (Suc k) ?all' @ greedy (drop (Suc k) ?all')"
    proof (rule 1(1)[OF kn True])
      show "Suc k \<le> length ?all'" using True by (simp add: e)
      show "length ?all' \<le> n"
        using length_removeCrossing_le[of "all ! k" all "Suc k"] 1(4) by simp
    qed
    also have "\<dots> = take k all @ greedy (drop k all)"
      using True by (simp add: e d take_Suc_conv_app_nth)
    finally show ?thesis .
  next
    case False
    then have "k = length all" using 1(3) by simp
    then show ?thesis by (simp add: suppress_past_end)
  qed
qed

lemma resolveOverlaps_greedy:
  "resolveOverlaps sortSlice all = greedy (sortSlice (biggerFirst all) all)"
  by (simp add: resolveOverlaps_def Let_def suppress_eq)

lemma greedy_Nil_iff: "greedy xs = [] \<longleftrightarrow> xs = []"
  by (cases xs) simp_all

section \<open>Insertion sort meets the contract of \<^verbatim>\<open>sort.Slice\<close>\<close>

lemma mset_sift: "mset (sift lt v pre) = add_mset v (mset pre)"
  by (induction pre) auto

lemma set_sift: "set (sift lt v pre) = insert v (set pre)"
  by (induction pre) auto

lemma mset_insertionSort_loop: "mset (insertionSort_loop lt pre xs) = mset pre + mset xs"
  by (induction xs arbitrary: pre) (auto simp: mset_sift)

lemma sorted_sift:
  assumes tot: "strict_total_on S lt" and v: "v \<in> S" and sub: "set pre \<subseteq> S"
    and srt: "sorted_wrt (\<lambda>a b. \<not> lt a b) pre"
  shows "sorted_wrt (\<lambda>a b. \<not> lt a b) (sift lt v pre)"
  using sub srt
proof (induction pre)
  case Nil
  then show ?case by simp
next
  case (Cons u us)
  have uS: "u \<in> S" and usS: "set us \<subseteq> S" using Cons.prems(1) by auto
  have tl: "sorted_wrt (\<lambda>a b. \<not> lt a b) us" and hd: "\<forall>e\<in>set us. \<not> lt u e"
    using Cons.prems(2) by auto
  show ?case
  proof (cases "lt v u")
    case True
    have "\<not> lt u v"
    proof
      assume "lt u v"
      with True tot v uS have "lt v v" unfolding strict_total_on_def by blast
      with tot v show False unfolding strict_total_on_def by blast
    qed
    with True hd Cons.IH[OF usS tl] show ?thesis by (simp add: set_sift)
  next
    case False
    have "\<not> lt v e" if e: "e \<in> set us" for e
    proof
      assume ve: "lt v e"
      have eS: "e \<in> S" using e usS by auto
      have "\<not> lt u e" using hd e by simp
      moreover have "v = u \<or> lt u v"
        using False tot v uS unfolding strict_total_on_def by blast
      ultimately show False using ve tot v uS eS unfolding strict_total_on_def by blast
    qed
    with False Cons.prems(2) show ?thesis by simp
  qed
qed

lemma sorted_insertionSort_loop:
  assumes tot: "strict_total_on S lt"
  shows "set pre \<subseteq> S \<Longrightarrow> set xs \<subseteq> S \<Longrightarrow> sorted_wrt (\<lambda>a b. \<not> lt a b) pre
     \<Longrightarrow> sorted_wrt (\<lambda>a b. \<not> lt b a) (insertionSort_loop lt pre xs)"
proof (induction xs arbitrary: pre)
  case Nil
  then show ?case by (simp add: sorted_wrt_rev)
next
  case (Cons v rest)
  have "sorted_wrt (\<lambda>a b. \<not> lt a b) (sift lt v pre)"
    using sorted_sift[OF tot _ Cons.prems(1) Cons.prems(3), of v] Cons.prems(2) by simp
  moreover have "set (sift lt v pre) \<subseteq> S" using Cons.prems by (simp add: set_sift)
  ultimately show ?case using Cons.IH Cons.prems(2) by simp
qed

lemma insertionSort_contract: "sort_contract insertionSort_func"
  unfolding sort_contract_def insertionSort_func_def
  by (auto simp: mset_insertionSort_loop intro: sorted_insertionSort_loop)

lemma sort_contract_mset: "sort_contract sortSlice \<Longrightarrow> mset (sortSlice lt xs) = mset xs"
  by (simp add: sort_contract_def)

lemma sort_contract_sorted:
  "sort_contract sortSlice \<Longrightarrow> strict_total_on (set xs) lt \<Longrightarrow>
   sorted_wrt (\<lambda>a b. \<not> lt b a) (sortSlice lt xs)"
  by (simp add: sort_contract_def)

lemma sort_contract_Nil_iff: "sort_contract sortSlice \<Longrightarrow> sortSlice lt xs = [] \<longleftrightarrow> xs = []"
  using sort_contract_mset[of sortSlice lt xs] by (metis mset_zero_iff)

text \<open>A list without inversions is determined by its elements when no two of them tie.\<close>

lemma sorted_unique:
  assumes tri: "\<forall>a\<in>set xs. \<forall>b\<in>set xs. a \<noteq> b \<longrightarrow> lt a b \<or> lt b a"
  shows "mset ys = mset xs \<Longrightarrow> sorted_wrt (\<lambda>a b. \<not> lt b a) xs \<Longrightarrow>
    sorted_wrt (\<lambda>a b. \<not> lt b a) ys \<Longrightarrow> ys = xs"
  using tri
proof (induction xs arbitrary: ys)
  case Nil
  then show ?case by simp
next
  case (Cons x xs)
  then obtain y ys' where ys: "ys = y # ys'" by (cases ys) auto
  have seteq: "set (y # ys') = set (x # xs)" using Cons.prems(1) ys mset_eq_setD by blast
  have xy: "x = y"
  proof (rule ccontr)
    assume ne: "x \<noteq> y"
    have "x \<in> set ys'" using seteq ne by auto
    then have a: "\<not> lt x y" using Cons.prems(3) ys by auto
    have "y \<in> set xs" using seteq ne by auto
    then have b: "\<not> lt y x" using Cons.prems(2) by auto
    have "y \<in> set (x # xs)" using seteq by auto
    with a b ne Cons.prems(4) show False by auto
  qed
  have "mset ys' = mset xs" using Cons.prems(1) ys xy by simp
  moreover have "sorted_wrt (\<lambda>a b. \<not> lt b a) xs" "sorted_wrt (\<lambda>a b. \<not> lt b a) ys'"
    using Cons.prems(2,3) ys by auto
  moreover have "\<forall>a\<in>set xs. \<forall>b\<in>set xs. a \<noteq> b \<longrightarrow> lt a b \<or> lt b a"
    using Cons.prems(4) by auto
  ultimately have "ys' = xs" using Cons.IH by blast
  with xy ys show ?case by simp
qed

lemma sortSlice_unique:
  assumes c: "sort_contract sortSlice" and p: "mset all' = mset all"
    and tot: "strict_total_on (set all) lt"
  shows "sortSlice lt all' = sortSlice lt all"
proof -
  have s: "set all' = set all" using p mset_eq_setD by blast
  have 1: "mset (sortSlice lt all') = mset (sortSlice lt all)"
    using p by (simp add: sort_contract_mset[OF c])
  have 2: "sorted_wrt (\<lambda>a b. \<not> lt b a) (sortSlice lt all)"
    by (rule sort_contract_sorted[OF c tot])
  have "strict_total_on (set all') lt" using tot s by simp
  then have 3: "sorted_wrt (\<lambda>a b. \<not> lt b a) (sortSlice lt all')"
    by (rule sort_contract_sorted[OF c])
  have "set (sortSlice lt all) = set all"
    using sort_contract_mset[OF c, of lt all] mset_eq_setD by blast
  then have 4: "\<forall>a\<in>set (sortSlice lt all). \<forall>b\<in>set (sortSlice lt all).
      a \<noteq> b \<longrightarrow> lt a b \<or> lt b a"
    using tot unfolding strict_total_on_def by simp
  show ?thesis by (rule sorted_unique[OF 4 1 2 3])
qed

section \<open>The priority order\<close>

lemma foldl_max_set:
  "foldl (\<lambda>m i. max m (f i)) (m0::int) xs = Max (insert m0 (f ` set xs))"
proof (induction xs arbitrary: m0)
  case Nil
  then show ?case by simp
next
  case (Cons a xs)
  have "Max (insert (max m0 (f a)) (f ` set xs)) = Max (insert m0 (insert (f a) (f ` set xs)))"
    by (cases "set xs = {}") (auto simp: max.assoc)
  with Cons show ?case by simp
qed

lemma maxSize_mset: "mset all' = mset all \<Longrightarrow> maxSize all' = maxSize all"
  using mset_eq_setD[of all' all] by (simp add: maxSize_def foldl_max_set)

lemma biggerFirst_mset: "mset all' = mset all \<Longrightarrow> biggerFirst all' = biggerFirst all"
  using maxSize_mset[of all' all] by (simp add: biggerFirst_def)

text \<open>The facts that a concrete run unfolds.\<close>

lemma lookup_fields:
  "fs (newFontSymbolLookup f x y g) = f"
  "lk_x (newFontSymbolLookup f x y g) = x"
  "lk_y (newFontSymbolLookup f x y g) = y"
  "lk_g (newFontSymbolLookup f x y g) = g"
  "lk_size (newFontSymbolLookup f x y g) = ib_size (image_bin f)"
  by (simp_all add: newFontSymbolLookup_def)

lemma glyph_fields:
  "symbol (glyph s w h n) = s"
  "width (glyph s w h n) = w"
  "height (glyph s w h n) = h"
  "ib_size (image_bin (glyph s w h n)) = n"
  by (simp_all add: glyph_def)

text \<open>For boxes of non-negative width and height, \<open>cross\<close> is the overlap of both extents.\<close>

lemma cross_iff:
  "0 \<le> width (fs a) \<Longrightarrow> 0 \<le> height (fs a) \<Longrightarrow>
   0 \<le> width (fs b) \<Longrightarrow> 0 \<le> height (fs b) \<Longrightarrow>
   cross a b \<longleftrightarrow>
     max (lk_x a) (lk_x b) < min (lk_x a + width (fs a)) (lk_x b + width (fs b)) \<and>
     max (lk_y a) (lk_y b) < min (lk_y a + height (fs a)) (lk_y b + height (fs b))"
  unfolding cross_def Intersect_def Rect_def Empty_def ZR_def Let_def
  by (auto split: if_splits)

lemmas run_defs =
  filterAndArrange_def resolveOverlaps_greedy synthesis_def insertionSort_func_def
  biggerFirst_def maxSize_def biggerThan_def abs_int_def comesAfter_def yCross_def cross_iff
  lookup_fields glyph_fields Let_def newline_def

section \<open>The synthesis loop\<close>

lemma synthesize_acc:
  "synthesize Advance str x previousAdvance i ss =
   str @ synthesize Advance [] x previousAdvance i ss"
proof (induction ss arbitrary: str x previousAdvance i)
  case Nil
  then show ?case by simp
next
  case (Cons s ss)
  show ?case
    by (simp only: synthesize.simps Let_def)
       (subst Cons.IH, subst (2) Cons.IH, simp)
qed

text \<open>
  After a symbol \<open>p\<close> the cursor is \<open>p.x + advance(p)\<close> and the previous advance is
  \<open>advance(p)\<close>; the index of the next symbol is not 0.
\<close>

lemma synthesize_pairs:
  "i \<noteq> 0 \<Longrightarrow>
   synthesize Advance str (lk_x q + Advance (fs q)) (Advance (fs q)) i rest =
   str @ concat (map (\<lambda>(p, s).
       (if lk_x s - (lk_x p + Advance (fs p)) \<ge> max (Advance (fs p)) (Advance (fs s))
        then '' '' else []) @
       (if lk_x s < lk_x p + Advance (fs p) then newline else []) @
       symbol (fs s)) (zip (q # rest) rest))"
proof (induction rest arbitrary: q str i)
  case Nil
  then show ?case by simp
next
  case (Cons s rest)
  have "Suc i \<noteq> 0" by simp
  note ih = Cons.IH [OF this, of _ s]
  show ?case using Cons.prems
    by (simp only: synthesize.simps Let_def) (simp add: ih)
qed

lemma synthesis_pairs:
  "synthesis Advance (s0 # rest) =
   Some (symbol (fs s0) @ concat (map (\<lambda>(p, s).
       (if lk_x s - (lk_x p + Advance (fs p)) \<ge> max (Advance (fs p)) (Advance (fs s))
        then '' '' else []) @
       (if lk_x s < lk_x p + Advance (fs p) then newline else []) @
       symbol (fs s)) (zip (s0 # rest) rest)))"
proof -
  have "synthesize Advance [] (lk_x s0) 0 0 (s0 # rest) =
      synthesize Advance (symbol (fs s0)) (lk_x s0 + Advance (fs s0)) (Advance (fs s0)) (Suc 0) rest"
    by (simp add: Let_def)
  then show ?thesis
    by (simp only: synthesis_def list.case) (simp add: synthesize_pairs)
qed

lemma zip_snoc_pairs:
  "zip (s0 # rest @ [s]) (rest @ [s]) = zip (s0 # rest) rest @ [(last (s0 # rest), s)]"
  by (induction rest arbitrary: s0) auto

section \<open>Claims\<close>

text \<open>
  C1 (as amended).  When the priority order \<open>biggerFirst\<close> is a strict total order on the
  candidates (no two distinct candidates tie and there is no cycle), \<open>filterAndArrange\<close>
  gives the same text for every permutation of its input list, for every sort that
  meets the contract of \<^verbatim>\<open>sort.Slice\<close>; and then \<open>recognize\<close> gives the same result
  with one worker and with \<open>n\<close> workers whenever the two scans return the same
  candidates in a different order.
\<close>

theorem filterAndArrange_permutation:
  assumes c: "sort_contract sortSlice"
    and p: "mset all' = mset all"
    and tot: "strict_total_on (set all) (biggerFirst all)"
  shows "filterAndArrange sortSlice Advance all' = filterAndArrange sortSlice Advance all \<and>
    (\<forall>findAllInParallel ocr bi rect n.
       findAllInParallel 1 (allSymbols ocr) bi (threshold ocr) rect = (all, None) \<longrightarrow>
       findAllInParallel n (allSymbols ocr) bi (threshold ocr) rect = (all', None) \<longrightarrow>
       recognize findAllInParallel sortSlice Advance (ocr\<lparr>numThreads := n\<rparr>) bi rect =
       recognize findAllInParallel sortSlice Advance (ocr\<lparr>numThreads := 1\<rparr>) bi rect)"
proof -
  have b: "biggerFirst all' = biggerFirst all" by (rule biggerFirst_mset [OF p])
  have "sortSlice (biggerFirst all) all' = sortSlice (biggerFirst all) all"
    by (rule sortSlice_unique [OF c p tot])
  then have "resolveOverlaps sortSlice all' = resolveOverlaps sortSlice all"
    by (simp add: resolveOverlaps_greedy b)
  then have fa: "filterAndArrange sortSlice Advance all' = filterAndArrange sortSlice Advance all"
    by (simp add: filterAndArrange_def)
  have e: "all' = [] \<longleftrightarrow> all = []" using p by (metis mset_zero_iff)
  from fa e show ?thesis by (simp add: recognize_def)
qed

theorem filterAndArrange_permutation_witness:
  "filterAndArrange insertionSort_func width
     [newFontSymbolLookup (glyph ''C'' 10 10 20) 60 0 1,
      newFontSymbolLookup (glyph ''A'' 10 10 50) 0 0 (9 / 10),
      newFontSymbolLookup (glyph ''B'' 10 10 40) 30 0 1] =
   filterAndArrange insertionSort_func width
     [newFontSymbolLookup (glyph ''A'' 10 10 50) 0 0 (9 / 10),
      newFontSymbolLookup (glyph ''B'' 10 10 40) 30 0 1,
      newFontSymbolLookup (glyph ''C'' 10 10 20) 60 0 1]"
proof -
  let ?A = "newFontSymbolLookup (glyph ''A'' 10 10 50) 0 0 (9 / 10)"
  let ?B = "newFontSymbolLookup (glyph ''B'' 10 10 40) 30 0 1"
  let ?C = "newFontSymbolLookup (glyph ''C'' 10 10 20) 60 0 1"
  have p: "mset [?C, ?A, ?B] = mset [?A, ?B, ?C]" by simp
  have tot: "strict_total_on (set [?A, ?B, ?C]) (biggerFirst [?A, ?B, ?C])"
    by (simp add: strict_total_on_def biggerFirst_def maxSize_def biggerThan_def abs_int_def
        lookup_fields glyph_fields Let_def)
  from filterAndArrange_permutation [OF insertionSort_contract p tot, of width]
  show ?thesis by blast
qed

text \<open>
  C1, the claim as stated fails: two candidates of the same size and quality whose boxes
  cross tie in the priority order; the one that stands first in the input survives, so
  the two orders of the same list give different texts.
\<close>

theorem filterAndArrange_depends_on_order:
  "filterAndArrange insertionSort_func width
     [newFontSymbolLookup (glyph ''A'' 10 10 50) 0 0 1,
      newFontSymbolLookup (glyph ''B'' 10 10 50) 1 0 1] = Some ''A'' \<and>
   filterAndArrange insertionSort_func width
     [newFontSymbolLookup (glyph ''B'' 10 10 50) 1 0 1,
      newFontSymbolLookup (glyph ''A'' 10 10 50) 0 0 1] = Some ''B''"
  by (simp add: run_defs)

text \<open>
  C2.  The priority order of the overlap resolver: with \<open>halfMax\<close> the integer half of the
  largest size in the whole candidate list, candidate \<open>A\<close> is placed before candidate
  \<open>B\<close> exactly when, for sizes at least \<open>halfMax\<close> apart, \<open>A\<close> is the larger one;
  otherwise when \<open>A\<close> has the strictly higher quality; and for equal qualities when
  \<open>A\<close> is the larger one.  Every candidate carries the ink size of its template (as
  \<open>newFontSymbolLookup\<close> sets it), a pixel count that is not negative.
\<close>

theorem biggerFirst_priority:
  assumes inv: "\<forall>c\<in>set all. lk_size c = ib_size (image_bin (fs c)) \<and> 0 \<le> lk_size c"
    and A: "A \<in> set all" and B: "B \<in> set all"
  shows "biggerFirst all A B \<longleftrightarrow>
    (let halfMax = Max (lk_size ` set all) div 2
     in if \<bar>lk_size A - lk_size B\<bar> \<ge> halfMax then lk_size B < lk_size A
        else if lk_g A \<noteq> lk_g B then lk_g A > lk_g B
        else lk_size B < lk_size A)"
proof -
  have img: "(\<lambda>i. ib_size (image_bin (fs i))) ` set all = lk_size ` set all"
    using inv by (intro image_cong) auto
  have ne: "lk_size ` set all \<noteq> {}" using A by auto
  have "0 \<le> Max (lk_size ` set all)"
    using inv A by (meson List.finite_set Max_ge_iff finite_imageI image_eqI ne)
  then have "Max (insert 0 (lk_size ` set all)) = Max (lk_size ` set all)"
    using ne by (simp add: max_def)
  then have m: "maxSize all = Max (lk_size ` set all)"
    by (simp add: maxSize_def foldl_max_set img)
  have "0 \<le> lk_size A" "0 \<le> lk_size B" using inv A B by auto
  then show ?thesis
    by (auto simp: biggerFirst_def m biggerThan_def abs_int_def Let_def)
qed

theorem biggerFirst_priority_witness:
  "biggerFirst
     [newFontSymbolLookup (glyph ''A'' 10 10 50) 0 0 (9 / 10),
      newFontSymbolLookup (glyph ''B'' 10 10 40) 30 0 1,
      newFontSymbolLookup (glyph ''C'' 10 10 20) 60 0 1]
     (newFontSymbolLookup (glyph ''B'' 10 10 40) 30 0 1)
     (newFontSymbolLookup (glyph ''A'' 10 10 50) 0 0 (9 / 10)) \<and>
   biggerFirst
     [newFontSymbolLookup (glyph ''A'' 10 10 50) 0 0 (9 / 10),
      newFontSymbolLookup (glyph ''B'' 10 10 40) 30 0 1,
      newFontSymbolLookup (glyph ''C'' 10 10 20) 60 0 1]
     (newFontSymbolLookup (glyph ''A'' 10 10 50) 0 0 (9 / 10))
     (newFontSymbolLookup (glyph ''C'' 10 10 20) 60 0 1)"
  using
    biggerFirst_priority [of
      "[newFontSymbolLookup (glyph ''A'' 10 10 50) 0 0 (9 / 10),
        newFontSymbolLookup (glyph ''B'' 10 10 40) 30 0 1,
        newFontSymbolLookup (glyph ''C'' 10 10 20) 60 0 1]"
      "newFontSymbolLookup (glyph ''B'' 10 10 40) 30 0 1"
      "newFontSymbolLookup (glyph ''A'' 10 10 50) 0 0 (9 / 10)"]
    biggerFirst_priority [of
      "[newFontSymbolLookup (glyph ''A'' 10 10 50) 0 0 (9 / 10),
        newFontSymbolLookup (glyph ''B'' 10 10 40) 30 0 1,
        newFontSymbolLookup (glyph ''C'' 10 10 20) 60 0 1]"
      "newFontSymbolLookup (glyph ''A'' 10 10 50) 0 0 (9 / 10)"
      "newFontSymbolLookup (glyph ''C'' 10 10 20) 60 0 1"]
  by (simp add: newFontSymbolLookup_def glyph_def Let_def)

text \<open>
  C3 (as amended).  \<open>comesAfter\<close> is asymmetric on candidates whose heights are not
  negative.  \<open>l.comesAfter(f)\<close> treats the two as on the same line exactly when the top
  or the bottom edge of \<open>f\<close> lies within the vertical extent of \<open>l\<close> (the edges of
  \<open>l\<close> are not tested against \<open>f\<close>); same-line candidates are ordered by ascending
  \<open>x\<close>, ties by ascending \<open>y\<close>, and all others by ascending \<open>y\<close>.  It is not
  transitive, so it is not a strict total order.
\<close>

theorem comesAfter_order:
  assumes "0 \<le> height (fs l)" and "0 \<le> height (fs f)"
  shows "\<not> (comesAfter l f \<and> comesAfter f l) \<and>
    (yCross l f \<longleftrightarrow>
       (lk_y l \<le> lk_y f \<and> lk_y f \<le> lk_y l + height (fs l)) \<or>
       (lk_y l \<le> lk_y f + height (fs f) \<and> lk_y f + height (fs f) \<le> lk_y l + height (fs l))) \<and>
    (comesAfter l f \<longleftrightarrow>
       (if yCross l f then lk_x l < lk_x f \<or> (lk_x l = lk_x f \<and> lk_y l < lk_y f)
        else lk_y l < lk_y f))"
proof -
  have asym: "\<not> (comesAfter l f \<and> comesAfter f l)"
    using assms by (auto simp: comesAfter_def yCross_def Let_def split: if_splits)
  have yc: "yCross l f \<longleftrightarrow>
       (lk_y l \<le> lk_y f \<and> lk_y f \<le> lk_y l + height (fs l)) \<or>
       (lk_y l \<le> lk_y f + height (fs f) \<and> lk_y f + height (fs f) \<le> lk_y l + height (fs l))"
    by (simp add: yCross_def Let_def)
  have "lk_y l \<noteq> lk_y f" if "\<not> yCross l f"
    using that assms by (auto simp: yCross_def Let_def)
  then have ca: "comesAfter l f \<longleftrightarrow>
       (if yCross l f then lk_x l < lk_x f \<or> (lk_x l = lk_x f \<and> lk_y l < lk_y f)
        else lk_y l < lk_y f)"
    by (auto simp: comesAfter_def Let_def)
  from asym yc ca show ?thesis by blast
qed

theorem comesAfter_order_witness:
  "\<not> (comesAfter (newFontSymbolLookup (glyph ''A'' 10 10 50) 0 0 1)
         (newFontSymbolLookup (glyph ''B'' 10 10 50) 10 0 1) \<and>
       comesAfter (newFontSymbolLookup (glyph ''B'' 10 10 50) 10 0 1)
         (newFontSymbolLookup (glyph ''A'' 10 10 50) 0 0 1)) \<and>
   yCross (newFontSymbolLookup (glyph ''A'' 10 10 50) 0 0 1)
     (newFontSymbolLookup (glyph ''B'' 10 10 50) 10 0 1) \<and>
   comesAfter (newFontSymbolLookup (glyph ''A'' 10 10 50) 0 0 1)
     (newFontSymbolLookup (glyph ''B'' 10 10 50) 10 0 1)"
  using comesAfter_order [of "newFontSymbolLookup (glyph ''A'' 10 10 50) 0 0 1"
      "newFontSymbolLookup (glyph ''B'' 10 10 50) 10 0 1"]
  by (simp add: newFontSymbolLookup_def glyph_def)

text \<open>
  C3, the claim as stated fails: three candidates of height 10 at \<open>(5,0)\<close>, \<open>(3,8)\<close>
  and \<open>(1,16)\<close>.  The third comes before the second and the second before the first
  (each pair shares a line and is ordered by \<open>x\<close>), but the third does not come before
  the first (they share no line and are ordered by \<open>y\<close>).
\<close>

theorem comesAfter_not_transitive:
  "comesAfter (newFontSymbolLookup (glyph ''C'' 10 10 50) 1 16 1)
     (newFontSymbolLookup (glyph ''B'' 10 10 50) 3 8 1) \<and>
   comesAfter (newFontSymbolLookup (glyph ''B'' 10 10 50) 3 8 1)
     (newFontSymbolLookup (glyph ''A'' 10 10 50) 5 0 1) \<and>
   \<not> comesAfter (newFontSymbolLookup (glyph ''C'' 10 10 50) 1 16 1)
     (newFontSymbolLookup (glyph ''A'' 10 10 50) 5 0 1)"
  by (simp add: comesAfter_def yCross_def newFontSymbolLookup_def glyph_def Let_def)




text \<open>
  C5 (as amended).  On every non-empty list of candidates \<open>filterAndArrange\<close> yields a
  text and does not fail, for every sort that meets the contract of \<^verbatim>\<open>sort.Slice\<close>.
  (The empty string for an empty match set comes from the guard of \<open>recognize\<close>, which
  returns before it calls \<open>filterAndArrange\<close>.)
\<close>

theorem filterAndArrange_total:
  assumes "sort_contract sortSlice" and "all \<noteq> []"
  shows "\<exists>text. filterAndArrange sortSlice Advance all = Some text"
proof -
  have "sortSlice (biggerFirst all) all \<noteq> []"
    using assms by (simp add: sort_contract_Nil_iff)
  then have "resolveOverlaps sortSlice all \<noteq> []"
    by (simp add: resolveOverlaps_greedy greedy_Nil_iff)
  then have "sortSlice comesAfter (resolveOverlaps sortSlice all) \<noteq> []"
    using assms(1) by (simp add: sort_contract_Nil_iff)
  then show ?thesis
    by (auto simp: filterAndArrange_def synthesis_def Let_def split: list.splits)
qed

theorem filterAndArrange_total_witness:
  "\<exists>text. filterAndArrange insertionSort_func width
     [newFontSymbolLookup (glyph ''A'' 10 10 50) 0 0 1] = Some text"
  using filterAndArrange_total [OF insertionSort_contract,
      of "[newFontSymbolLookup (glyph ''A'' 10 10 50) 0 0 1]" width]
  by simp

text \<open>
  C5, the claim as stated fails: on the empty list \<open>filterAndArrange\<close> does not yield the
  empty string, it panics at \<^verbatim>\<open>all[0]\<close>.
\<close>

theorem filterAndArrange_empty_panics:
  "filterAndArrange insertionSort_func width [] = None"
  by (simp add: run_defs)

text \<open>
  C9.  When the scanner returns no candidates and no error (as for an empty template
  pool, or when no template scores at or above the threshold), \<open>recognize\<close> returns the
  empty string and a nil error; it does not fail.
\<close>

theorem recognize_no_candidates:
  assumes "findAllInParallel (numThreads ocr) (allSymbols ocr) bi (threshold ocr) rect = ([], None)"
  shows "recognize findAllInParallel sortSlice Advance ocr bi rect = Some ('''', None)"
  using assms by (simp add: recognize_def)

theorem recognize_no_candidates_witness:
  "recognize (\<lambda>n symbols bi thr rect. ([], None :: error option)) insertionSort_func width
     (NewOCR (9 / 10) []) () (Rect 0 0 99 49) = Some ('''', None)"
  using recognize_no_candidates [of "\<lambda>n symbols bi thr rect. ([], None :: error option)"
      "NewOCR (9 / 10) []" "()" "Rect 0 0 99 49" insertionSort_func width]
  by simp

text \<open>
  C10.  When \<open>LoadFont\<close> returns a non-nil error (the directory does not exist or cannot
  be read, a file cannot be opened or decoded, or a name is not well-formed percent
  encoding), the OCR object is unchanged: no font family is created or extended and
  no symbol is added to \<open>allSymbols\<close>.
\<close>

theorem LoadFont_error_keeps_state:
  assumes "LoadFont w ocr fontPath = (Some err, ocr')"
  shows "ocr' = ocr"
  using assms by (auto simp: LoadFont_def Let_def split: if_splits sum.splits)

theorem LoadFont_error_keeps_state_witness:
  "LoadFont
     \<lparr>Stat = (\<lambda>p. None), ReadDir = (\<lambda>p. Inr [\<lparr>Name = ''%2.png'', IsDir = False\<rparr>]),
      Open = (\<lambda>p. Inr ()), Decode = (\<lambda>f. Inr ()), Base = (\<lambda>p. p),
      toBinary = (\<lambda>i. \<lparr>ib_width = 3, ib_height = 5, ib_size = 7\<rparr>)\<rparr>
     (AddSymbols (NewOCR (9 / 10) []) [glyph ''0'' 3 5 7]) ''font_1''
   = (Some (EscapeError ''%2''), AddSymbols (NewOCR (9 / 10) []) [glyph ''0'' 3 5 7])"
proof -
  let ?w = "\<lparr>Stat = (\<lambda>p. None), ReadDir = (\<lambda>p. Inr [\<lparr>Name = ''%2.png'', IsDir = False\<rparr>]),
      Open = (\<lambda>p. Inr ()), Decode = (\<lambda>f. Inr ()), Base = (\<lambda>p. p),
      toBinary = (\<lambda>i. \<lparr>ib_width = 3, ib_height = 5, ib_size = 7\<rparr>)\<rparr>"
  let ?o = "AddSymbols (NewOCR (9 / 10) []) [glyph ''0'' 3 5 7]"
  have e: "fst (LoadFont ?w ?o ''font_1'') = Some (EscapeError ''%2'')"
    by (simp add: LoadFont_def IsNotExist_def loadFont_def loadSymbol_def HasPrefix_def
        TrimSuffix_def HasSuffix_def QueryUnescape_def ishex_def Let_def)
  then have "LoadFont ?w ?o ''font_1'' = (Some (EscapeError ''%2''), snd (LoadFont ?w ?o ''font_1''))"
    by (metis prod.collapse)
  from this LoadFont_error_keeps_state [OF this] show ?thesis by simp
qed

text \<open>
  C6 (as amended).  During text synthesis, for a symbol \<open>s\<close> that follows a symbol
  \<open>p\<close> (so its position is not 0, the cursor is \<open>p.x + advance(p)\<close> and the previous
  advance is \<open>advance(p)\<close>), a space is written before the label of \<open>s\<close> exactly when
  \<open>s.x - cursorX \<ge> max(previousAdvance, advance(s))\<close>.  Two same-line candidates
  with advance 10 at \<open>x = 0\<close> and \<open>x = 25\<close> give \<open>A B\<close>; at \<open>x = 0\<close> and \<open>x = 5\<close> they
  give no space but a line break between \<open>A\<close> and \<open>B\<close>, since 5 is left of the cursor 10.
\<close>

theorem synthesis_space_rule:
  "synthesis Advance (ss @ [p, s]) =
     map_option (\<lambda>text. text @
       (if lk_x s - (lk_x p + Advance (fs p)) \<ge> max (Advance (fs p)) (Advance (fs s))
        then '' '' else []) @
       (if lk_x s < lk_x p + Advance (fs p) then newline else []) @
       symbol (fs s)) (synthesis Advance (ss @ [p])) \<and>
   filterAndArrange insertionSort_func (\<lambda>f. 10)
     [newFontSymbolLookup (glyph ''A'' 4 10 50) 0 0 1,
      newFontSymbolLookup (glyph ''B'' 4 10 50) 25 0 1] = Some ''A B'' \<and>
   filterAndArrange insertionSort_func (\<lambda>f. 10)
     [newFontSymbolLookup (glyph ''A'' 4 10 50) 0 0 1,
      newFontSymbolLookup (glyph ''B'' 4 10 50) 5 0 1] = Some (''A'' @ newline @ ''B'')"
proof -
  obtain s0 rest where sp: "ss @ [p] = s0 # rest" by (cases ss) auto
  then have sps: "ss @ [p, s] = s0 # (rest @ [s])" by simp
  have "last (s0 # rest) = p" using sp by (metis last_snoc)
  then have z: "zip (s0 # rest @ [s]) (rest @ [s]) = zip (s0 # rest) rest @ [(p, s)]"
    using zip_snoc_pairs [of s0 rest s] by simp
  have "synthesis Advance (ss @ [p, s]) =
     map_option (\<lambda>text. text @
       (if lk_x s - (lk_x p + Advance (fs p)) \<ge> max (Advance (fs p)) (Advance (fs s))
        then '' '' else []) @
       (if lk_x s < lk_x p + Advance (fs p) then newline else []) @
       symbol (fs s)) (synthesis Advance (ss @ [p]))"
    unfolding sps sp synthesis_pairs z by simp
  moreover have "filterAndArrange insertionSort_func (\<lambda>f. 10)
     [newFontSymbolLookup (glyph ''A'' 4 10 50) 0 0 1,
      newFontSymbolLookup (glyph ''B'' 4 10 50) 25 0 1] = Some ''A B''"
    by (simp add: run_defs)
  moreover have "filterAndArrange insertionSort_func (\<lambda>f. 10)
     [newFontSymbolLookup (glyph ''A'' 4 10 50) 0 0 1,
      newFontSymbolLookup (glyph ''B'' 4 10 50) 5 0 1] = Some (''A'' @ newline @ ''B'')"
    by (simp add: run_defs)
  ultimately show ?thesis by blast
qed

text \<open>
  C6, the claim as stated fails: two candidates with advance 10 on the same line at
  \<open>x = 0\<close> and \<open>x = 5\<close> do not give \<open>AB\<close>.
\<close>

theorem synthesis_close_pair_not_joined:
  "filterAndArrange insertionSort_func (\<lambda>f. 10)
     [newFontSymbolLookup (glyph ''A'' 4 10 50) 0 0 1,
      newFontSymbolLookup (glyph ''B'' 4 10 50) 5 0 1] \<noteq> Some ''AB''"
  by (simp add: run_defs)


text \<open>
  C8.  The label of a loaded template should be the decoded file name without its
  extension.  \<open>loadSymbol\<close> removes only the suffix \<^verbatim>\<open>.png\<close>: a JPEG template named
  \<^verbatim>\<open>0.jpg\<close> gets the label \<^verbatim>\<open>0.jpg\<close>.
\<close>

theorem loadSymbol_keeps_jpg_extension:
  "loadSymbol
     \<lparr>Stat = (\<lambda>p. None), ReadDir = (\<lambda>p. Inr [\<lparr>Name = ''0.jpg'', IsDir = False\<rparr>]),
      Open = (\<lambda>p. Inr ()), Decode = (\<lambda>f. Inr ()), Base = (\<lambda>p. p),
      toBinary = (\<lambda>i. \<lparr>ib_width = 3, ib_height = 5, ib_size = 7\<rparr>)\<rparr>
     ''font_1'' ''0.jpg'' = Inr (glyph ''0.jpg'' 3 5 7)"
  by (simp add: loadSymbol_def TrimSuffix_def HasSuffix_def QueryUnescape_def ishex_def
      unhex_def Let_def NewFontSymbol_def glyph_def zeroWidthSpace_def HasPrefix_def
      Replace.simps)

text \<open>The example of the documentation: \<^verbatim>\<open>%2F%E2%80%8B.png\<close> gives the label \<^verbatim>\<open>/\<close>.\<close>

lemma loadSymbol_zero_width_space_example:
  "loadSymbol
     \<lparr>Stat = (\<lambda>p. None), ReadDir = (\<lambda>p. Inr []),
      Open = (\<lambda>p. Inr ()), Decode = (\<lambda>f. Inr ()), Base = (\<lambda>p. p),
      toBinary = (\<lambda>i. \<lparr>ib_width = 3, ib_height = 5, ib_size = 7\<rparr>)\<rparr>
     ''font_1'' ''%2F%E2%80%8B.png'' = Inr (glyph ''/'' 3 5 7)"
  by (simp add: loadSymbol_def TrimSuffix_def HasSuffix_def QueryUnescape_def ishex_def
      unhex_def Let_def NewFontSymbol_def glyph_def zeroWidthSpace_def HasPrefix_def
      Replace.simps char_of_def bit_Suc_0_iff)

end
